theory Spec2Isabelle
  imports Complex_Main
begin

section \<open>The Elo evaluator of YiVal (\<open>openai_elo_evaluator.py\<close>)\<close>

text \<open>
  The development embeds \<open>OpenAIEloEvaluator\<close>: the rating arithmetic
  (\<open>expected_score\<close>, \<open>update_elo\<close>), the construction of the judge messages,
  the replay of the judge's verdicts into the rating table and the final write-back
  into the aggregated metrics.

  Python's numbers are modelled by \<^typ>\<open>real\<close>: every rating starts as the
  integer 1200 and becomes a float after the first update; the model computes with
  the exact values, so rounding and the float range are outside it. Python strings are
  \<^typ>\<open>string\<close>, one \<^typ>\<open>char\<close> per code point below 256.
\<close>

subsection \<open>Data model\<close>

datatype error = IndexError | KeyError | CompletionError

text \<open>A chat message is the dictionary \<open>{"role": ..., "content": ...}\<close>.\<close>

record chat_message =
  role :: string
  content :: string

text \<open>
  A response of the completion service, read by the evaluator as
  \<open>response["choices"][0]["message"]["content"]\<close>.
\<close>

record choice =
  message :: chat_message

record response =
  choices :: "choice list"

text \<open>
  \<open>ExperimentResult\<close>: the evaluator reads \<open>raw_output\<close> and
  \<open>str(combination)\<close> only, so \<open>combination\<close> holds that rendering.
\<close>

record experiment_result =
  combination :: string
  raw_output :: string

record grouped_experiment_result =
  group_key :: string
  experiment_results :: "experiment_result list"

record evaluator_output =
  name :: string
  result :: real

text \<open>\<open>evaluator_outputs\<close> is \<open>Optional[List[EvaluatorOutput]]\<close>.\<close>

record combination_aggregated_metrics =
  combo_key :: string
  evaluator_outputs :: "evaluator_output list option"

record "experiment" =
  group_experiment_results :: "grouped_experiment_result list"
  combination_aggregated_metrics :: "combination_aggregated_metrics list"

record evaluator_config =
  openai_model_name :: string
  input_description :: string

type_synonym ratings = "string \<rightharpoonup> real"

subsection \<open>Rating arithmetic\<close>

definition K :: real where
  "K = 32"

definition expected_score :: "real \<Rightarrow> real \<Rightarrow> real" where
  "expected_score r1 r2 = 1 / (1 + 10 powr ((r2 - r1) / 400))"

definition update_elo :: "real \<Rightarrow> real \<Rightarrow> real \<Rightarrow> real \<times> real" where
  "update_elo r1 r2 score1 =
     (let e1 = expected_score r1 r2;
          e2 = expected_score r2 r1
      in (r1 + K * (score1 - e1), r2 + K * ((1 - score1) - e2)))"

text \<open>
  The conditional expression
  \<open>1 if score == 'A' else 0 if score == 'B' else 0.5\<close>.
\<close>

definition verdict_score :: "string \<Rightarrow> real" where
  "verdict_score s = (if s = ''A'' then 1 else if s = ''B'' then 0 else 0.5)"

subsection \<open>Strings and the regular expression of the evaluator\<close>

definition nl :: char where
  "nl = CHR 0x0A"

text \<open>
  The characters Python counts as whitespace (\<open>str.isspace\<close>, \<open>\s\<close> of a
  \<open>str\<close> pattern) among the code points below 256.
\<close>

definition is_space :: "char \<Rightarrow> bool" where
  "is_space c \<longleftrightarrow>
     c \<in> set [CHR 0x09, CHR 0x0A, CHR 0x0B, CHR 0x0C, CHR 0x0D, CHR 0x1C, CHR 0x1D,
              CHR 0x1E, CHR 0x1F, CHR 0x20, CHR 0x85, CHR 0xA0]"

text \<open>\<open>str.strip()\<close>: leading and trailing whitespace removed.\<close>

definition strip :: "string \<Rightarrow> string" where
  "strip s = rev (dropWhile is_space (rev (dropWhile is_space s)))"

text \<open>
  \<open>re.search(r'content:\s*(\{.*?\})(?:,|$)', s)\<close>, as the backtracking matcher
  runs this pattern. \<open>tail_ok\<close> is the last group \<open>(?:,|$)\<close> at the rest of
  the subject: a comma, or the end of the string, or the position before a newline
  that ends the string (\<open>$\<close> without \<open>re.MULTILINE\<close>).
\<close>

definition tail_ok :: "string \<Rightarrow> bool" where
  "tail_ok cs \<longleftrightarrow> (case cs of [] \<Rightarrow> True | c # cs' \<Rightarrow> c = CHR '','' \<or> (c = nl \<and> cs' = []))"

text \<open>
  \<open>.*?\}(?:,|$)\<close> after the opening brace: the lazy star first tries the rest of
  the pattern at the current position, and only when that fails lets \<open>.\<close> take one
  more character, which must not be a newline. The result is what \<open>.*?\<close> consumed.
\<close>

fun lazy_body :: "string \<Rightarrow> string option" where
  "lazy_body [] = None"
| "lazy_body (c # cs) =
     (if c = CHR ''}'' \<and> tail_ok cs then Some []
      else if c = nl then None
      else map_option ((#) c) (lazy_body cs))"

text \<open>
  The pattern anchored at the start of \<open>s\<close>; the result is group 1. The greedy
  \<open>\s*\<close> takes the whole run of whitespace: giving a character back leaves a
  whitespace character where \<open>\{\<close> is required.
\<close>

definition match_here :: "string \<Rightarrow> string option" where
  "match_here s =
     (if take 8 s = ''content:'' then
        (case dropWhile is_space (drop 8 s) of
           [] \<Rightarrow> None
         | c # cs \<Rightarrow>
             if c = CHR ''{'' then map_option (\<lambda>b. ''{'' @ b @ ''}'') (lazy_body cs)
             else None)
      else None)"

text \<open>\<open>re.search\<close> tries the start positions from left to right.\<close>

fun re_search :: "string \<Rightarrow> string option" where
  "re_search [] = match_here []"
| "re_search (c # cs) =
     (case match_here (c # cs) of Some g \<Rightarrow> Some g | None \<Rightarrow> re_search cs)"

text \<open>
  The declarative reading of the pattern: at offset \<open>i\<close> the subject continues
  with \<open>content:\<close>, whitespace, and \<open>{body}\<close> without a newline in \<open>body\<close>,
  followed by a comma or the end.
\<close>

definition matches_at :: "string \<Rightarrow> nat \<Rightarrow> string \<Rightarrow> bool" where
  "matches_at s i body \<longleftrightarrow>
     i \<le> length s \<and>
     (\<exists>ws rest. drop i s = ''content:'' @ ws @ ''{'' @ body @ ''}'' @ rest
        \<and> list_all is_space ws \<and> nl \<notin> set body \<and> tail_ok rest)"

subsection \<open>Judge messages\<close>

definition RANKING_SYSTEM_PROMPT :: string where
  "RANKING_SYSTEM_PROMPT =
     ''Your job is to rank the quality of two outputs'' @ [nl]
     @ ''generated by different prompts. The prompts are used to generate a response'' @ [nl]
     @ ''for a given task and its associated input data.'' @ [nl]
     @ ''You will be provided with the task description, the test input data, and two'' @ [nl]
     @ ''generations - one for each system prompt.'' @ [nl]
     @ ''Rank the generations in order of quality. If Generation A is better, respond'' @ [nl]
     @ ''with 'A'. If Generation B is better, respond with 'B'.'' @ [nl]
     @ ''Remember, to be considered 'better', a generation must not just be good, it'' @ [nl]
     @ ''must be noticeably superior to the other. Also, keep in mind that you are a'' @ [nl]
     @ ''very harsh critic. Only rank a generation as better if it truly impresses you'' @ [nl]
     @ ''more than the other. Respond with your ranking, and nothing else. Be fair and'' @ [nl]
     @ ''unbiased in your judgement.''"

text \<open>
  The user message, an f-string over four source lines: the continuation lines keep
  their indentation of 24 spaces.
\<close>

definition user_content ::
  "evaluator_config \<Rightarrow> string \<Rightarrow> experiment_result \<Rightarrow> experiment_result \<Rightarrow> string" where
  "user_content config test_case result1 result2 =
     ''Task: '' @ strip (input_description config) @ [nl]
     @ replicate 24 (CHR '' '') @ ''Prompt: '' @ test_case @ [nl]
     @ replicate 24 (CHR '' '') @ ''Generation A: '' @ raw_output result1 @ [nl]
     @ replicate 24 (CHR '' '') @ ''Generation B: '' @ raw_output result2"

definition judge_message ::
  "evaluator_config \<Rightarrow> string \<Rightarrow> experiment_result \<Rightarrow> experiment_result \<Rightarrow> chat_message list" where
  "judge_message config test_case result1 result2 =
     [\<lparr>role = ''system'', content = RANKING_SYSTEM_PROMPT\<rparr>,
      \<lparr>role = ''user'', content = user_content config test_case result1 result2\<rparr>]"

text \<open>\<open>itertools.combinations(xs, 2)\<close>: the pairs of positions \<open>i < j\<close>, in order.\<close>

fun combinations2 :: "'a list \<Rightarrow> ('a \<times> 'a) list" where
  "combinations2 [] = []"
| "combinations2 (x # xs) = map (Pair x) xs @ combinations2 xs"

text \<open>The task text of a group: group 1 of the match, or the empty string.\<close>

definition test_case_of :: "string \<Rightarrow> string" where
  "test_case_of key = (case re_search key of Some g \<Rightarrow> g | None \<Rightarrow> [])"

definition group_messages ::
  "evaluator_config \<Rightarrow> grouped_experiment_result \<Rightarrow> chat_message list list" where
  "group_messages config g =
     concat (map (\<lambda>(result1, result2).
                    [judge_message config (test_case_of (group_key g)) result1 result2,
                     judge_message config (test_case_of (group_key g)) result2 result1])
                 (combinations2 (experiment_results g)))"

definition message_batches :: "evaluator_config \<Rightarrow> experiment \<Rightarrow> chat_message list list" where
  "message_batches config e = concat (map (group_messages config) (group_experiment_results e))"

text \<open>The total of the progress bar: \<open>sum(comb(len(...), 2) for ...) * 2\<close>.\<close>

definition total_rounds :: "experiment \<Rightarrow> nat" where
  "total_rounds e =
     (\<Sum>g \<leftarrow> group_experiment_results e. length (experiment_results g) choose 2) * 2"

subsection \<open>Replaying the verdicts\<close>

text \<open>The dictionary comprehension that gives every \<open>combo_key\<close> the rating 1200.\<close>

definition prompt_ratings_init :: "combination_aggregated_metrics list \<Rightarrow> ratings" where
  "prompt_ratings_init combos = foldl (\<lambda>m combo. m(combo_key combo \<mapsto> 1200)) Map.empty combos"

text \<open>
  \<open>responses[idx]["choices"][0]["message"]["content"]\<close>; both list accesses raise
  \<open>IndexError\<close> out of range.
\<close>

definition response_content :: "response list \<Rightarrow> nat \<Rightarrow> error + string" where
  "response_content responses idx =
     (if idx < length responses then
        (case choices (responses ! idx) of
           [] \<Rightarrow> Inl IndexError
         | c # _ \<Rightarrow> Inr (content (message c)))
      else Inl IndexError)"

text \<open>
  The body of the inner loop, for one pair of results. Both responses of the pair are
  read and interpreted; \<open>update_elo\<close> is called once, with \<open>score1\<close>. The
  state is the index into the responses and the rating table.
\<close>

definition replay_match ::
  "experiment_result \<times> experiment_result \<Rightarrow> response list \<Rightarrow> nat \<Rightarrow> ratings
     \<Rightarrow> error + (nat \<times> ratings)" where
  "replay_match p responses idx prompt_ratings =
     (let result1 = fst p;
          result2 = snd p;
          formatted_combination1 = combination result1;
          formatted_combination2 = combination result2
      in (case response_content responses idx of
            Inl err \<Rightarrow> Inl err
          | Inr c1 \<Rightarrow>
             (let score1 = verdict_score c1
              in (case response_content responses (idx + 1) of
                    Inl err \<Rightarrow> Inl err
                  | Inr c2 \<Rightarrow>
                     (let score2 = verdict_score c2
                      in (case prompt_ratings formatted_combination1 of
                            None \<Rightarrow> Inl KeyError
                          | Some r1 \<Rightarrow>
                             (case prompt_ratings formatted_combination2 of
                                None \<Rightarrow> Inl KeyError
                              | Some r2 \<Rightarrow>
                                 (let r = update_elo r1 r2 score1
                                  in Inr (idx + 2,
                                          (prompt_ratings(formatted_combination1 \<mapsto> fst r))
                                            (formatted_combination2 \<mapsto> snd r))))))))))"

text \<open>The inner loop over \<open>itertools.combinations(..., 2)\<close> of one group.\<close>

fun replay_pairs ::
  "(experiment_result \<times> experiment_result) list \<Rightarrow> response list \<Rightarrow> nat \<Rightarrow> ratings
     \<Rightarrow> error + (nat \<times> ratings)" where
  "replay_pairs [] responses idx prompt_ratings = Inr (idx, prompt_ratings)"
| "replay_pairs (p # ps) responses idx prompt_ratings =
     (case replay_match p responses idx prompt_ratings of
        Inl err \<Rightarrow> Inl err
      | Inr (idx', prompt_ratings') \<Rightarrow> replay_pairs ps responses idx' prompt_ratings')"

text \<open>The outer loop over the groups.\<close>

fun replay_groups ::
  "grouped_experiment_result list \<Rightarrow> response list \<Rightarrow> nat \<Rightarrow> ratings
     \<Rightarrow> error + (nat \<times> ratings)" where
  "replay_groups [] responses idx prompt_ratings = Inr (idx, prompt_ratings)"
| "replay_groups (g # gs) responses idx prompt_ratings =
     (case replay_pairs (combinations2 (experiment_results g)) responses idx prompt_ratings of
        Inl err \<Rightarrow> Inl err
      | Inr (idx', prompt_ratings') \<Rightarrow> replay_groups gs responses idx' prompt_ratings')"

text \<open>The rating table after the replay, from the responses of the completion service.\<close>

definition final_ratings :: "experiment \<Rightarrow> response list \<Rightarrow> error + ratings" where
  "final_ratings e responses =
     (case replay_groups (group_experiment_results e) responses 0
             (prompt_ratings_init (combination_aggregated_metrics e)) of
        Inl err \<Rightarrow> Inl err
      | Inr (idx, prompt_ratings) \<Rightarrow> Inr prompt_ratings)"

subsection \<open>Writing the ratings back\<close>

text \<open>
  The last loop: an absent or empty \<open>evaluator_outputs\<close> becomes \<open>[]\<close>, then the
  rating of the \<open>combo_key\<close> is appended under the evaluator's name.
\<close>

definition append_rating ::
  "combination_aggregated_metrics \<Rightarrow> real \<Rightarrow> combination_aggregated_metrics" where
  "append_rating combo r =
     combo\<lparr>evaluator_outputs :=
       Some ((case evaluator_outputs combo of None \<Rightarrow> [] | Some [] \<Rightarrow> [] | Some outs \<Rightarrow> outs)
             @ [\<lparr>name = ''openai_elo_evaluator'', result = r\<rparr>])\<rparr>"

fun aggregate ::
  "ratings \<Rightarrow> combination_aggregated_metrics list
     \<Rightarrow> error + combination_aggregated_metrics list" where
  "aggregate prompt_ratings [] = Inr []"
| "aggregate prompt_ratings (combo # combos) =
     (case prompt_ratings (combo_key combo) of
        None \<Rightarrow> Inl KeyError
      | Some r \<Rightarrow>
          (case aggregate prompt_ratings combos of
             Inl err \<Rightarrow> Inl err
           | Inr combos' \<Rightarrow> Inr (append_rating combo r # combos')))"

subsection \<open>The evaluator\<close>

text \<open>
  \<open>evaluate_based_on_all_results\<close> mutates the experiment in place and returns
  \<open>None\<close>; the model returns the list of experiments after the call, or the
  exception that left it. \<open>parallel_completions\<close> is the completion service (its code
  is outside the evaluator): it receives the message batches and the model name and
  returns the responses, or fails.
\<close>

definition evaluate_based_on_all_results ::
  "evaluator_config \<Rightarrow> (chat_message list list \<Rightarrow> string \<Rightarrow> error + response list)
     \<Rightarrow> experiment list \<Rightarrow> error + experiment list" where
  "evaluate_based_on_all_results config parallel_completions exps =
     (if length exps \<noteq> 1 then Inr exps
      else
        let e = exps ! 0 in
        case parallel_completions (message_batches config e) (openai_model_name config) of
          Inl err \<Rightarrow> Inl err
        | Inr responses \<Rightarrow>
            (case final_ratings e responses of
               Inl err \<Rightarrow> Inl err
             | Inr prompt_ratings \<Rightarrow>
                 (case aggregate prompt_ratings (combination_aggregated_metrics e) of
                    Inl err \<Rightarrow> Inl err
                  | Inr combos' \<Rightarrow> Inr [e\<lparr>combination_aggregated_metrics := combos'\<rparr>])))"

subsection \<open>Inputs for evaluation\<close>

text \<open>
  A well-formed response carrying one verdict, the configuration of \<open>main\<close> (for a
  given model name), and two small experiments: two treatments compared in one group,
  and one treatment alone.
\<close>

definition response_with :: "string \<Rightarrow> response" where
  "response_with s = \<lparr>choices = [\<lparr>message = \<lparr>role = ''assistant'', content = s\<rparr>\<rparr>]\<rparr>"

definition two_treatments :: "experiment" where
  "two_treatments =
     \<lparr>group_experiment_results =
        [\<lparr>group_key = ''{'text': 'Hello world!'}'',
          experiment_results =
            [\<lparr>combination = ''{'name': 'A'}'', raw_output = ''Bonjour le monde!''\<rparr>,
             \<lparr>combination = ''{'name': 'B'}'', raw_output = ''Salut monde!''\<rparr>]\<rparr>],
      combination_aggregated_metrics =
        [\<lparr>combo_key = ''{'name': 'A'}'', evaluator_outputs = None\<rparr>,
         \<lparr>combo_key = ''{'name': 'B'}'', evaluator_outputs = None\<rparr>]\<rparr>"

definition single_treatment :: "experiment" where
  "single_treatment =
     \<lparr>group_experiment_results =
        [\<lparr>group_key = ''{'text': 'Hello world!'}'',
          experiment_results =
            [\<lparr>combination = ''{'name': 'A'}'', raw_output = ''Bonjour le monde!''\<rparr>]\<rparr>],
      combination_aggregated_metrics =
        [\<lparr>combo_key = ''{'name': 'A'}'', evaluator_outputs = None\<rparr>]\<rparr>"

definition main_config :: "string \<Rightarrow> evaluator_config" where
  "main_config model =
     \<lparr>openai_model_name = model,
      input_description = ''Translate the given English sentence to French''\<rparr>"

text \<open>A group whose key carries a \<open>content:\<close> label.\<close>

definition labelled_group :: grouped_experiment_result where
  "labelled_group =
     \<lparr>group_key = ''content: {'text': 'Hello world!'}, expected_result: None'',
      experiment_results =
        [\<lparr>combination = ''{'name': 'A'}'', raw_output = ''Bonjour le monde!''\<rparr>,
         \<lparr>combination = ''{'name': 'B'}'', raw_output = ''Salut monde!''\<rparr>]\<rparr>"

subsection \<open>Properties of the rating arithmetic\<close>

lemma expected_score_sum: "expected_score r1 r2 + expected_score r2 r1 = 1"
proof -
  define d :: real where "d = (r2 - r1) / 400"
  define x :: real where "x = 10 powr d"
  have xpos: "0 < x" by (simp add: x_def)
  have neg: "(r1 - r2) / 400 = - d"
    unfolding d_def by (simp only: minus_divide_left minus_diff_eq)
  have inv: "10 powr (- d) = 1 / x"
    unfolding x_def by (rule powr_minus_divide)
  have "1 / (1 + x) + 1 / (1 + 1 / x) = 1"
    using xpos by (simp add: field_simps)
  then show ?thesis
    unfolding expected_score_def neg d_def [symmetric] inv x_def [symmetric] .
qed

text \<open>
  Claim C2: \<open>expected_score r1 r2\<close> is \<open>1 / (1 + 10^((r2 - r1)/400))\<close>, and
  \<open>update_elo\<close> returns the pair
  \<open>(r1 + K*(score1 - expected_score r1 r2), r2 + K*((1 - score1) - expected_score r2 r1))\<close>
  with the constant \<open>K = 32\<close>, for all ratings and every outcome.
\<close>

theorem C2_elo_formulas:
  "K = 32
   \<and> expected_score r1 r2 = 1 / (1 + 10 powr ((r2 - r1) / 400))
   \<and> update_elo r1 r2 score1 =
       (r1 + 32 * (score1 - 1 / (1 + 10 powr ((r2 - r1) / 400))),
        r2 + 32 * ((1 - score1) - 1 / (1 + 10 powr ((r1 - r2) / 400))))"
  by (simp add: K_def expected_score_def update_elo_def)

text \<open>
  Claim C4: for outcome scores \<open>s1 + s2 = 1\<close> the update with outcome \<open>s1\<close>
  keeps the sum of the two ratings, in exact real arithmetic.
\<close>

theorem C4_update_elo_preserves_sum:
  assumes "s1 + s2 = 1" and "update_elo r1 r2 s1 = (r1', r2')"
  shows "r1' + r2' = r1 + r2"
proof -
  have r1': "r1' = r1 + K * (s1 - expected_score r1 r2)"
    and r2': "r2' = r2 + K * ((1 - s1) - expected_score r2 r1)"
    using assms(2) by (simp_all add: update_elo_def)
  have "r1' + r2' = r1 + r2 + K * (1 - (expected_score r1 r2 + expected_score r2 r1))"
    unfolding r1' r2' by (simp add: algebra_simps)
  then show ?thesis
    by (simp add: expected_score_sum)
qed

theorem C4_update_elo_preserves_sum_witness:
  "(1::real) + 0 = 1 \<and> update_elo 1200 1200 1 = (1216, 1184) \<and> (1216::real) + 1184 = 1200 + 1200"
proof -
  have u: "update_elo 1200 1200 1 = (1216, 1184)"
    by (simp add: update_elo_def expected_score_def K_def)
  have s: "(1::real) + 0 = 1" by simp
  from C4_update_elo_preserves_sum [OF s u] u show ?thesis by simp
qed

subsection \<open>The pair generator and the message batches\<close>

lemma Suc_choose_two: "Suc n choose 2 = n + (n choose 2)"
  by (simp add: numeral_2_eq_2)

lemma length_combinations2: "length (combinations2 xs) = length xs choose 2"
  by (induction xs) (simp_all add: Suc_choose_two)

lemma twice_choose_two: "(n choose 2) * 2 = n * (n - 1)"
proof (induction n)
  case 0
  show ?case by simp
next
  case (Suc n)
  have "(Suc n choose 2) * 2 = n * 2 + (n choose 2) * 2"
    by (simp add: Suc_choose_two)
  also have "\<dots> = n * 2 + n * (n - 1)" by (simp only: Suc)
  also have "\<dots> = Suc n * (Suc n - 1)"
    by (cases n) simp_all
  finally show ?case .
qed

lemma map_nth_Cons_upt:
  "map (\<lambda>j. f ((x # xs) ! j)) [Suc a ..< Suc b] = map (\<lambda>j. f (xs ! j)) [a ..< b]"
proof -
  have "[Suc a ..< Suc b] = map Suc [a ..< b]"
    by (simp only: map_Suc_upt)
  then show ?thesis
    by (simp add: o_def del: upt_Suc)
qed

lemma combinations2_enum:
  "combinations2 xs =
     concat (map (\<lambda>i. map (\<lambda>j. (xs ! i, xs ! j)) [Suc i ..< length xs]) [0 ..< length xs])"
proof (induction xs)
  case Nil
  show ?case by simp
next
  case (Cons x xs)
  let ?n = "length xs"
  let ?row = "\<lambda>ys i. map (\<lambda>j. (ys ! i, ys ! j)) [Suc i ..< length ys]"
  have "map (\<lambda>j. (x, xs ! j)) [0 ..< ?n] = map (Pair x) (map ((!) xs) [0 ..< ?n])"
    by (simp add: o_def)
  then have row0: "?row (x # xs) 0 = map (Pair x) xs"
    using map_nth_Cons_upt [of "Pair x" x xs 0 ?n] by (simp add: map_nth del: upt_Suc)
  have rows: "?row (x # xs) (Suc i) = ?row xs i" for i
    using map_nth_Cons_upt [of "Pair (xs ! i)" x xs "Suc i" ?n] by (simp del: upt_Suc)
  have "[0 ..< length (x # xs)] = 0 # map Suc [0 ..< ?n]"
    by (simp only: map_Suc_upt length_Cons upt_conv_Cons [OF zero_less_Suc])
  then have "concat (map (?row (x # xs)) [0 ..< length (x # xs)])
      = ?row (x # xs) 0 @ concat (map (\<lambda>i. ?row (x # xs) (Suc i)) [0 ..< ?n])"
    by (simp add: o_def del: upt_Suc)
  also have "\<dots> = map (Pair x) xs @ concat (map (?row xs) [0 ..< ?n])"
    by (simp only: row0 rows)
  also have "\<dots> = combinations2 (x # xs)"
    by (simp add: Cons.IH [symmetric])
  finally show ?case by simp
qed

lemma length_pair_concat:
  "length (concat (map (\<lambda>(a, b). [f a b, h a b]) ps)) = length ps * 2"
  by (induction ps) auto

lemma length_group_messages:
  "length (group_messages config g) = (length (experiment_results g) choose 2) * 2"
  by (simp add: group_messages_def length_pair_concat length_combinations2)

lemma length_message_batches: "length (message_batches config e) = total_rounds e"
proof -
  have "length (concat (map (group_messages config) gs)) =
        (\<Sum>g \<leftarrow> gs. length (experiment_results g) choose 2) * 2" for gs
    by (induction gs) (simp_all add: length_group_messages algebra_simps)
  then show ?thesis by (simp add: message_batches_def total_rounds_def)
qed

lemma nth_pair_concat:
  "k < length ps \<Longrightarrow>
     concat (map (\<lambda>(a, b). [f a b, h a b]) ps) ! (2 * k) = f (fst (ps ! k)) (snd (ps ! k))
     \<and> concat (map (\<lambda>(a, b). [f a b, h a b]) ps) ! (2 * k + 1) = h (fst (ps ! k)) (snd (ps ! k))"
proof (induction ps arbitrary: k)
  case Nil
  then show ?case by simp
next
  case (Cons p ps)
  obtain a b where p: "p = (a, b)" by (cases p)
  show ?case
  proof (cases k)
    case 0
    then show ?thesis by (simp add: p)
  next
    case (Suc j)
    with Cons.prems have j: "j < length ps" by simp
    from Cons.IH [OF j] Suc show ?thesis by (simp add: p)
  qed
qed


text \<open>
  Claim C5: a group with \<open>n\<close> results gives \<open>C(n,2)\<close> pairs, enumerated by
  positions \<open>i < j\<close> in lexicographic order, and \<open>n * (n - 1)\<close> messages, two
  per pair: the message at position \<open>2k\<close> renders the \<open>k\<close>-th pair \<open>(X, Y)\<close>
  with \<open>X\<close> as Generation A and \<open>Y\<close> as Generation B, the message at position
  \<open>2k + 1\<close> renders it the other way round. A group with at most one result gives no
  message; the batches of the experiment are the messages of its groups, in the order
  of the groups; the total computed for the progress bar is their number.
\<close>

theorem C5_pair_generator:
  "length (combinations2 (experiment_results g)) = length (experiment_results g) choose 2
   \<and> combinations2 (experiment_results g) =
       concat (map (\<lambda>i. map (\<lambda>j. (experiment_results g ! i, experiment_results g ! j))
                             [Suc i ..< length (experiment_results g)])
                   [0 ..< length (experiment_results g)])
   \<and> length (group_messages config g) =
       length (experiment_results g) * (length (experiment_results g) - 1)
   \<and> (\<forall>k < length (combinations2 (experiment_results g)).
         group_messages config g ! (2 * k) =
           judge_message config (test_case_of (group_key g))
             (fst (combinations2 (experiment_results g) ! k))
             (snd (combinations2 (experiment_results g) ! k))
         \<and> group_messages config g ! (2 * k + 1) =
           judge_message config (test_case_of (group_key g))
             (snd (combinations2 (experiment_results g) ! k))
             (fst (combinations2 (experiment_results g) ! k)))
   \<and> judge_message config test_case x y =
       [\<lparr>role = ''system'', content = RANKING_SYSTEM_PROMPT\<rparr>,
        \<lparr>role = ''user'',
         content =
           ''Task: '' @ strip (input_description config) @ [nl]
           @ replicate 24 (CHR '' '') @ ''Prompt: '' @ test_case @ [nl]
           @ replicate 24 (CHR '' '') @ ''Generation A: '' @ raw_output x @ [nl]
           @ replicate 24 (CHR '' '') @ ''Generation B: '' @ raw_output y\<rparr>]
   \<and> (length (experiment_results g) \<le> 1 \<longrightarrow> group_messages config g = [])
   \<and> message_batches config e = concat (map (group_messages config) (group_experiment_results e))
   \<and> total_rounds e = length (message_batches config e)"
proof -
  have small: "group_messages config g = []" if "length (experiment_results g) \<le> 1"
  proof -
    from that have "length (group_messages config g) = 0"
      by (cases "experiment_results g"; simp add: length_group_messages)
    then show ?thesis by simp
  qed
  show ?thesis
  proof (intro conjI impI allI)
    show "length (combinations2 (experiment_results g)) = length (experiment_results g) choose 2"
      by (rule length_combinations2)
    show "combinations2 (experiment_results g) =
       concat (map (\<lambda>i. map (\<lambda>j. (experiment_results g ! i, experiment_results g ! j))
                             [Suc i ..< length (experiment_results g)])
                   [0 ..< length (experiment_results g)])"
      by (rule combinations2_enum)
    show "length (group_messages config g) =
       length (experiment_results g) * (length (experiment_results g) - 1)"
      by (simp only: length_group_messages twice_choose_two)
    show "group_messages config g = []" if "length (experiment_results g) \<le> 1"
      using that by (rule small)
    show "message_batches config e = concat (map (group_messages config) (group_experiment_results e))"
      by (rule message_batches_def)
    show "total_rounds e = length (message_batches config e)"
      by (simp only: length_message_batches)
    show "judge_message config test_case x y =
       [\<lparr>role = ''system'', content = RANKING_SYSTEM_PROMPT\<rparr>,
        \<lparr>role = ''user'',
         content =
           ''Task: '' @ strip (input_description config) @ [nl]
           @ replicate 24 (CHR '' '') @ ''Prompt: '' @ test_case @ [nl]
           @ replicate 24 (CHR '' '') @ ''Generation A: '' @ raw_output x @ [nl]
           @ replicate 24 (CHR '' '') @ ''Generation B: '' @ raw_output y\<rparr>]"
      unfolding judge_message_def user_content_def ..
  next
    fix k assume k: "k < length (combinations2 (experiment_results g))"
    note n = nth_pair_concat [OF k,
        of "judge_message config (test_case_of (group_key g))"
           "\<lambda>a b. judge_message config (test_case_of (group_key g)) b a"]
    show "group_messages config g ! (2 * k) =
           judge_message config (test_case_of (group_key g))
             (fst (combinations2 (experiment_results g) ! k))
             (snd (combinations2 (experiment_results g) ! k))"
      unfolding group_messages_def by (rule n [THEN conjunct1])
    show "group_messages config g ! (2 * k + 1) =
           judge_message config (test_case_of (group_key g))
             (snd (combinations2 (experiment_results g) ! k))
             (fst (combinations2 (experiment_results g) ! k))"
      unfolding group_messages_def by (rule n [THEN conjunct2])
  qed
qed

theorem C5_pair_generator_witness:
  "length (experiment_results (hd (group_experiment_results single_treatment))) \<le> 1
   \<and> group_messages (main_config ''gpt-4'') (hd (group_experiment_results single_treatment)) = []
   \<and> length (group_messages (main_config ''gpt-4'') (hd (group_experiment_results two_treatments))) = 2
   \<and> group_messages (main_config ''gpt-4'') (hd (group_experiment_results two_treatments)) ! 0 =
       judge_message (main_config ''gpt-4'') []
         \<lparr>combination = ''{'name': 'A'}'', raw_output = ''Bonjour le monde!''\<rparr>
         \<lparr>combination = ''{'name': 'B'}'', raw_output = ''Salut monde!''\<rparr>
   \<and> group_messages (main_config ''gpt-4'') (hd (group_experiment_results two_treatments)) ! 1 =
       judge_message (main_config ''gpt-4'') []
         \<lparr>combination = ''{'name': 'B'}'', raw_output = ''Salut monde!''\<rparr>
         \<lparr>combination = ''{'name': 'A'}'', raw_output = ''Bonjour le monde!''\<rparr>
   \<and> total_rounds two_treatments = 2"
proof -
  let ?cfg = "main_config ''gpt-4''"
  let ?g1 = "hd (group_experiment_results single_treatment)"
  let ?g2 = "hd (group_experiment_results two_treatments)"
  let ?ra = "\<lparr>combination = ''{'name': 'A'}'', raw_output = ''Bonjour le monde!''\<rparr>"
  let ?rb = "\<lparr>combination = ''{'name': 'B'}'', raw_output = ''Salut monde!''\<rparr>"
  note c1 = C5_pair_generator [of ?g1 ?cfg "[]" ?ra ?rb two_treatments]
  note c2 = C5_pair_generator [of ?g2 ?cfg "[]" ?ra ?rb two_treatments]
  have one: "length (experiment_results ?g1) \<le> 1"
    by (simp add: single_treatment_def)
  have pairs: "combinations2 (experiment_results ?g2) = [(?ra, ?rb)]"
    by (simp add: two_treatments_def)
  have t: "test_case_of (group_key ?g2) = []"
    by (simp add: two_treatments_def test_case_of_def match_here_def)
  have k: "0 < length (combinations2 (experiment_results ?g2))"
    by (simp add: pairs)
  note at0 = c2 [THEN conjunct2, THEN conjunct2, THEN conjunct2, THEN conjunct1,
                 THEN spec, THEN mp, OF k]
  have m0: "group_messages ?cfg ?g2 ! 0 = judge_message ?cfg [] ?ra ?rb"
    using at0 [THEN conjunct1] unfolding pairs t by simp
  have m1: "group_messages ?cfg ?g2 ! 1 = judge_message ?cfg [] ?rb ?ra"
    using at0 [THEN conjunct2] unfolding pairs t by simp
  have len: "length (group_messages ?cfg ?g2) = 2"
    using c2 [THEN conjunct2, THEN conjunct2, THEN conjunct1]
    by (simp add: two_treatments_def)
  have none: "group_messages ?cfg ?g1 = []"
    by (rule c1 [THEN conjunct2, THEN conjunct2, THEN conjunct2, THEN conjunct2,
                 THEN conjunct2, THEN conjunct1, THEN mp, OF one])
  have "length (message_batches ?cfg two_treatments) = 2"
    unfolding c2 [THEN conjunct2, THEN conjunct2, THEN conjunct2, THEN conjunct2,
                  THEN conjunct2, THEN conjunct2, THEN conjunct1]
    using len by (simp add: two_treatments_def)
  with c2 [THEN conjunct2, THEN conjunct2, THEN conjunct2, THEN conjunct2,
           THEN conjunct2, THEN conjunct2, THEN conjunct2]
  have tot: "total_rounds two_treatments = 2" by simp
  show ?thesis
    by (intro conjI) (rule one none len m0 m1 tot)+
qed

subsection \<open>The rating table\<close>

lemma foldl_init_lookup:
  "foldl (\<lambda>m combo. m(combo_key combo \<mapsto> (1200::real))) m0 combos k =
     (if k \<in> combo_key ` set combos then Some 1200 else m0 k)"
  by (induction combos arbitrary: m0) auto

lemma prompt_ratings_init_lookup:
  "prompt_ratings_init combos k = (if k \<in> combo_key ` set combos then Some 1200 else None)"
  by (simp add: prompt_ratings_init_def foldl_init_lookup)

lemma dom_prompt_ratings_init: "dom (prompt_ratings_init combos) = combo_key ` set combos"
  by (auto simp: prompt_ratings_init_lookup dom_def)

lemma replay_match_Inr:
  "replay_match (r1, r2) responses idx m = Inr res \<longleftrightarrow>
     (\<exists>c1 c2 a b. response_content responses idx = Inr c1
        \<and> response_content responses (idx + 1) = Inr c2
        \<and> m (combination r1) = Some a \<and> m (combination r2) = Some b
        \<and> res = (idx + 2,
                 (m(combination r1 \<mapsto> fst (update_elo a b (verdict_score c1))))
                   (combination r2 \<mapsto> snd (update_elo a b (verdict_score c1)))))"
  by (auto simp: replay_match_def Let_def split: sum.splits option.splits prod.splits)

lemma replay_match_frame:
  assumes "replay_match p responses idx m = Inr (idx', m')"
  shows "dom m' = dom m" and "idx' = idx + 2"
    and "k \<noteq> combination (fst p) \<Longrightarrow> k \<noteq> combination (snd p) \<Longrightarrow> m' k = m k"
proof -
  obtain r1 r2 where p: "p = (r1, r2)" by (cases p)
  from assms obtain x y a b where
    m': "m' = (m(combination r1 \<mapsto> x))(combination r2 \<mapsto> y)"
    and idx': "idx' = idx + 2"
    and a: "m (combination r1) = Some a" and b: "m (combination r2) = Some b"
    unfolding p replay_match_Inr by blast
  show "idx' = idx + 2" by (rule idx')
  have "insert (combination r2) (insert (combination r1) (dom m)) = dom m"
    using a b by blast
  then show "dom m' = dom m" by (simp add: m')
  show "m' k = m k" if "k \<noteq> combination (fst p)" "k \<noteq> combination (snd p)"
    using that by (simp add: m' p)
qed

lemma replay_pairs_frame:
  "replay_pairs ps responses idx m = Inr (idx', m') \<Longrightarrow>
     dom m' = dom m \<and> idx' = idx + 2 * length ps \<and>
     ((\<forall>p \<in> set ps. k \<noteq> combination (fst p) \<and> k \<noteq> combination (snd p)) \<longrightarrow> m' k = m k)"
proof (induction ps arbitrary: idx m)
  case Nil
  then show ?case by simp
next
  case (Cons p ps)
  from Cons.prems obtain i1 m1 where
    step: "replay_match p responses idx m = Inr (i1, m1)"
    and rest: "replay_pairs ps responses i1 m1 = Inr (idx', m')"
    by (auto split: sum.splits prod.splits)
  from Cons.IH [OF rest] replay_match_frame [OF step]
  show ?case by auto
qed

lemma replay_groups_frame:
  "replay_groups gs responses idx m = Inr (idx', m') \<Longrightarrow>
     dom m' = dom m \<and>
     ((\<forall>g \<in> set gs. \<forall>p \<in> set (combinations2 (experiment_results g)).
          k \<noteq> combination (fst p) \<and> k \<noteq> combination (snd p)) \<longrightarrow> m' k = m k)"
proof (induction gs arbitrary: idx m)
  case Nil
  then show ?case by simp
next
  case (Cons g gs)
  from Cons.prems obtain i1 m1 where
    step: "replay_pairs (combinations2 (experiment_results g)) responses idx m = Inr (i1, m1)"
    and rest: "replay_groups gs responses i1 m1 = Inr (idx', m')"
    by (auto split: sum.splits prod.splits)
  from Cons.IH [OF rest] replay_pairs_frame [OF step, of k]
  show ?case by auto
qed

lemma replay_pairs_Nil_groups:
  "\<forall>g \<in> set gs. length (experiment_results g) \<le> 1 \<Longrightarrow>
     replay_groups gs responses idx m = Inr (idx, m)"
proof (induction gs)
  case Nil
  show ?case by simp
next
  case (Cons g gs)
  then have "length (experiment_results g) \<le> 1" by simp
  then have "combinations2 (experiment_results g) = []"
    by (cases "experiment_results g") simp_all
  with Cons show ?case by simp
qed

lemma aggregate_total:
  "(\<forall>c \<in> set combos. m (combo_key c) \<noteq> None) \<Longrightarrow>
     aggregate m combos = Inr (map (\<lambda>c. append_rating c (the (m (combo_key c)))) combos)"
  by (induction combos) auto

lemma replay_match_cong:
  assumes "\<forall>i. response_content rs1 i = response_content rs2 i"
  shows "replay_match p rs1 idx m = replay_match p rs2 idx m"
proof -
  have h: "response_content rs1 = response_content rs2"
    using assms by (intro ext) simp
  show ?thesis
    unfolding replay_match_def h ..
qed

lemma replay_pairs_cong:
  assumes "\<forall>i. response_content rs1 i = response_content rs2 i"
  shows "replay_pairs ps rs1 idx m = replay_pairs ps rs2 idx m"
proof (induction ps arbitrary: idx m)
  case Nil
  show ?case by simp
next
  case (Cons p ps)
  show ?case
    by (simp add: replay_match_cong [OF assms] Cons.IH split: sum.splits prod.splits)
qed

lemma replay_groups_cong:
  assumes "\<forall>i. response_content rs1 i = response_content rs2 i"
  shows "replay_groups gs rs1 idx m = replay_groups gs rs2 idx m"
proof (induction gs arbitrary: idx m)
  case Nil
  show ?case by simp
next
  case (Cons g gs)
  show ?case
    by (simp add: replay_pairs_cong [OF assms] Cons.IH split: sum.splits prod.splits)
qed

lemma final_ratings_Inr:
  "final_ratings e responses = Inr m \<longleftrightarrow>
     (\<exists>idx. replay_groups (group_experiment_results e) responses 0
              (prompt_ratings_init (combination_aggregated_metrics e)) = Inr (idx, m))"
  by (auto simp: final_ratings_def split: sum.splits prod.splits)

lemma final_ratings_dom:
  assumes "final_ratings e responses = Inr m"
  shows "dom m = combo_key ` set (combination_aggregated_metrics e)"
proof -
  from assms obtain idx where
    "replay_groups (group_experiment_results e) responses 0
       (prompt_ratings_init (combination_aggregated_metrics e)) = Inr (idx, m)"
    by (auto simp: final_ratings_Inr)
  from replay_groups_frame [OF this] show ?thesis
    by (simp add: dom_prompt_ratings_init)
qed

text \<open>
  Claim C3: the interpretation of a verdict is defined on every string: \<open>"A"\<close> is
  1, \<open>"B"\<close> is 0 and every other string, the empty one included, is 0.5. No verdict
  makes the loop body fail: when both responses of the pair are there and both keys
  are rated, it performs the update with the score of the first verdict.
\<close>

theorem C3_verdict_score_total:
  "verdict_score ''A'' = 1
   \<and> verdict_score ''B'' = 0
   \<and> (s \<noteq> ''A'' \<and> s \<noteq> ''B'' \<longrightarrow> verdict_score s = 1 / 2)
   \<and> (response_content responses idx = Inr c1
        \<and> response_content responses (idx + 1) = Inr c2
        \<and> prompt_ratings (combination result1) = Some r1
        \<and> prompt_ratings (combination result2) = Some r2
      \<longrightarrow> replay_match (result1, result2) responses idx prompt_ratings =
            Inr (idx + 2,
                 (prompt_ratings(combination result1 \<mapsto> fst (update_elo r1 r2 (verdict_score c1))))
                   (combination result2 \<mapsto> snd (update_elo r1 r2 (verdict_score c1)))))"
  by (simp add: verdict_score_def replay_match_Inr)

theorem C3_verdict_score_total_witness:
  "verdict_score ''A'' = 1 \<and> verdict_score ''B'' = 0
   \<and> verdict_score [] = 1 / 2 \<and> verdict_score ''AB'' = 1 / 2
   \<and> replay_match
         (\<lparr>combination = ''{'name': 'A'}'', raw_output = ''Bonjour le monde!''\<rparr>,
          \<lparr>combination = ''{'name': 'B'}'', raw_output = ''Salut monde!''\<rparr>)
         [response_with [], response_with ''AB''] 0
         (prompt_ratings_init (combination_aggregated_metrics two_treatments))
       = Inr (2, prompt_ratings_init (combination_aggregated_metrics two_treatments))"
proof -
  let ?m = "prompt_ratings_init (combination_aggregated_metrics two_treatments)"
  let ?ra = "\<lparr>combination = ''{'name': 'A'}'', raw_output = ''Bonjour le monde!''\<rparr>"
  let ?rb = "\<lparr>combination = ''{'name': 'B'}'', raw_output = ''Salut monde!''\<rparr>"
  let ?rs = "[response_with [], response_with ''AB'']"
  have r: "response_content ?rs 0 = Inr []" "response_content ?rs (0 + 1) = Inr ''AB''"
    by (simp_all add: response_content_def response_with_def)
  have k: "?m (combination ?ra) = Some 1200" "?m (combination ?rb) = Some 1200"
    by (simp_all add: prompt_ratings_init_def two_treatments_def)
  have u: "update_elo 1200 1200 (1 / 2) = (1200, 1200)"
    by (simp add: update_elo_def expected_score_def K_def)
  have same: "(?m(''{'name': 'A'}'' \<mapsto> 1200))(''{'name': 'B'}'' \<mapsto> 1200) = ?m"
    by (rule ext) (simp add: prompt_ratings_init_def two_treatments_def)
  note c3 = C3_verdict_score_total [of "[]" ?rs 0 "[]" "''AB''" ?m ?ra 1200 ?rb 1200]
  have hyp: "response_content ?rs 0 = Inr [] \<and> response_content ?rs (0 + 1) = Inr ''AB''
      \<and> ?m (combination ?ra) = Some 1200 \<and> ?m (combination ?rb) = Some 1200"
    using r k by (intro conjI)
  have v1: "verdict_score [] = 1 / 2"
    using c3 [THEN conjunct2, THEN conjunct2, THEN conjunct1] by simp
  have v2: "verdict_score ''AB'' = 1 / 2"
    using C3_verdict_score_total [of "''AB''", THEN conjunct2, THEN conjunct2, THEN conjunct1]
    by simp
  have "replay_match (?ra, ?rb) ?rs 0 ?m = Inr (2, ?m)"
    unfolding c3 [THEN conjunct2, THEN conjunct2, THEN conjunct2, THEN mp, OF hyp] v1 u
    by (simp add: same)
  with v1 v2 c3 [THEN conjunct1] c3 [THEN conjunct2, THEN conjunct1]
  show ?thesis by (intro conjI)
qed

lemmas eval_defs = final_ratings_def prompt_ratings_init_def response_content_def
  verdict_score_def update_elo_def expected_score_def K_def replay_match_def response_with_def

text \<open>
  Claim C1, evaluated on the code: two treatments in one group, the judge answers
  \<open>"A"\<close> to both renderings. One update is made for the pair, from the verdict of
  the first rendering: the ratings end at 1216 and 1184, and the verdict of the second
  rendering does not change them.
\<close>

theorem C1_only_first_verdict_folded:
  "(\<exists>m. final_ratings two_treatments [response_with ''A'', response_with ''A''] = Inr m
        \<and> m ''{'name': 'A'}'' = Some 1216 \<and> m ''{'name': 'B'}'' = Some 1184)
   \<and> final_ratings two_treatments [response_with ''A'', response_with ''B'']
     = final_ratings two_treatments [response_with ''A'', response_with ''A'']"
  by (simp add: eval_defs two_treatments_def)

text \<open>
  Claim C6: every \<open>combo_key\<close> of the aggregated metrics starts at 1200; a key that
  is in no pair of any group has the rating 1200 at the end of the replay; and when no
  group has two results the replay returns the initial table.
\<close>

theorem C6_baseline_rating:
  "(combo \<in> set combos \<longrightarrow> prompt_ratings_init combos (combo_key combo) = Some 1200)
   \<and> (final_ratings e responses = Inr m
        \<and> combo \<in> set (combination_aggregated_metrics e)
        \<and> (\<forall>g \<in> set (group_experiment_results e).
             \<forall>p \<in> set (combinations2 (experiment_results g)).
               combo_key combo \<noteq> combination (fst p) \<and> combo_key combo \<noteq> combination (snd p))
      \<longrightarrow> m (combo_key combo) = Some 1200)
   \<and> ((\<forall>g \<in> set (group_experiment_results e). length (experiment_results g) \<le> 1)
      \<longrightarrow> final_ratings e responses = Inr (prompt_ratings_init (combination_aggregated_metrics e)))"
proof (intro conjI impI)
  assume "combo \<in> set combos"
  then show "prompt_ratings_init combos (combo_key combo) = Some 1200"
    by (simp add: prompt_ratings_init_lookup)
next
  assume a: "final_ratings e responses = Inr m
        \<and> combo \<in> set (combination_aggregated_metrics e)
        \<and> (\<forall>g \<in> set (group_experiment_results e).
             \<forall>p \<in> set (combinations2 (experiment_results g)).
               combo_key combo \<noteq> combination (fst p) \<and> combo_key combo \<noteq> combination (snd p))"
  then obtain idx where
    "replay_groups (group_experiment_results e) responses 0
       (prompt_ratings_init (combination_aggregated_metrics e)) = Inr (idx, m)"
    by (auto simp: final_ratings_Inr)
  from replay_groups_frame [OF this, of "combo_key combo"] a
  show "m (combo_key combo) = Some 1200"
    by (simp add: prompt_ratings_init_lookup)
next
  assume "\<forall>g \<in> set (group_experiment_results e). length (experiment_results g) \<le> 1"
  then show "final_ratings e responses = Inr (prompt_ratings_init (combination_aggregated_metrics e))"
    by (simp add: final_ratings_def replay_pairs_Nil_groups)
qed

theorem C6_baseline_rating_witness:
  "final_ratings single_treatment [] = Inr (prompt_ratings_init (combination_aggregated_metrics single_treatment))
   \<and> prompt_ratings_init (combination_aggregated_metrics single_treatment) ''{'name': 'A'}'' = Some 1200"
  using C6_baseline_rating [of "\<lparr>combo_key = ''{'name': 'A'}'', evaluator_outputs = None\<rparr>"
      "combination_aggregated_metrics single_treatment" single_treatment "[]"
      "prompt_ratings_init (combination_aggregated_metrics single_treatment)"]
  by (simp add: single_treatment_def)

subsection \<open>The evaluator as a whole\<close>

lemma evaluate_single:
  assumes "pc (message_batches config e) (openai_model_name config) = Inr responses"
    and "final_ratings e responses = Inr m"
  shows "evaluate_based_on_all_results config pc [e] =
           Inr [e\<lparr>combination_aggregated_metrics :=
                    map (\<lambda>c. append_rating c (the (m (combo_key c))))
                        (combination_aggregated_metrics e)\<rparr>]"
proof -
  have "\<forall>c \<in> set (combination_aggregated_metrics e). m (combo_key c) \<noteq> None"
    using final_ratings_dom [OF assms(2)] by (auto simp: dom_def)
  from aggregate_total [OF this] assms show ?thesis
    by (simp add: evaluate_based_on_all_results_def)
qed

lemma evaluate_single_Inr:
  assumes "evaluate_based_on_all_results config pc [e] = Inr out"
  shows "\<exists>responses m. pc (message_batches config e) (openai_model_name config) = Inr responses
            \<and> final_ratings e responses = Inr m"
  using assms
  by (auto simp: evaluate_based_on_all_results_def split: sum.splits)

lemma append_rating_outputs:
  "evaluator_outputs (append_rating c r) =
     Some ((case evaluator_outputs c of None \<Rightarrow> [] | Some outs \<Rightarrow> outs)
           @ [\<lparr>name = ''openai_elo_evaluator'', result = r\<rparr>])"
  by (simp add: append_rating_def split: option.splits list.splits)

lemma append_rating_key: "combo_key (append_rating c r) = combo_key c"
  by (simp add: append_rating_def)

lemma evaluate_single_Inr_full:
  assumes "evaluate_based_on_all_results config pc [e] = Inr out"
  shows "\<exists>responses m. pc (message_batches config e) (openai_model_name config) = Inr responses
            \<and> final_ratings e responses = Inr m
            \<and> out = [e\<lparr>combination_aggregated_metrics :=
                    map (\<lambda>c. append_rating c (the (m (combo_key c))))
                        (combination_aggregated_metrics e)\<rparr>]"
proof -
  from evaluate_single_Inr [OF assms] obtain responses m where
    r: "pc (message_batches config e) (openai_model_name config) = Inr responses"
    and m: "final_ratings e responses = Inr m" by blast
  from evaluate_single [where pc = pc and config = config, OF r m] assms r m show ?thesis by auto
qed

text \<open>
  Claim C7: when the completion service has answered and the replay has produced the
  rating table \<open>m\<close>, the evaluator returns the experiment with every aggregated
  record extended by one output named \<open>openai_elo_evaluator\<close> that carries the
  rating of the record's \<open>combo_key\<close>; an absent list counts as empty. A second run
  on the result appends one more output after the first.
\<close>

theorem C7_aggregator_appends_rating:
  assumes pc: "pc (message_batches config e) (openai_model_name config) = Inr responses"
    and fr: "final_ratings e responses = Inr m"
  shows "\<exists>e'. evaluate_based_on_all_results config pc [e] = Inr [e']
           \<and> group_experiment_results e' = group_experiment_results e
           \<and> length (combination_aggregated_metrics e') = length (combination_aggregated_metrics e)
           \<and> (\<forall>i < length (combination_aggregated_metrics e).
                 combo_key (combination_aggregated_metrics e' ! i)
                   = combo_key (combination_aggregated_metrics e ! i)
                 \<and> (\<exists>r. m (combo_key (combination_aggregated_metrics e ! i)) = Some r
                       \<and> evaluator_outputs (combination_aggregated_metrics e' ! i) =
                           Some ((case evaluator_outputs (combination_aggregated_metrics e ! i) of
                                    None \<Rightarrow> [] | Some outs \<Rightarrow> outs)
                                 @ [\<lparr>name = ''openai_elo_evaluator'', result = r\<rparr>])))
           \<and> (\<forall>config2 pc2 out2.
                 evaluate_based_on_all_results config2 pc2 [e'] = Inr out2 \<longrightarrow>
                 (\<exists>e''. out2 = [e'']
                    \<and> length (combination_aggregated_metrics e'')
                        = length (combination_aggregated_metrics e)
                    \<and> (\<forall>i < length (combination_aggregated_metrics e).
                          \<exists>r r2. evaluator_outputs (combination_aggregated_metrics e'' ! i) =
                             Some ((case evaluator_outputs (combination_aggregated_metrics e ! i) of
                                      None \<Rightarrow> [] | Some outs \<Rightarrow> outs)
                                   @ [\<lparr>name = ''openai_elo_evaluator'', result = r\<rparr>,
                                      \<lparr>name = ''openai_elo_evaluator'', result = r2\<rparr>]))))"
proof -
  let ?cs = "combination_aggregated_metrics e"
  let ?old = "\<lambda>c. case evaluator_outputs c of None \<Rightarrow> [] | Some outs \<Rightarrow> outs"
  let ?e' = "e\<lparr>combination_aggregated_metrics :=
                 map (\<lambda>c. append_rating c (the (m (combo_key c)))) ?cs\<rparr>"
  have run: "evaluate_based_on_all_results config pc [e] = Inr [?e']"
    by (rule evaluate_single [where pc = pc and config = config, OF pc fr])
  have each: "combo_key (combination_aggregated_metrics ?e' ! i) = combo_key (?cs ! i)
       \<and> (\<exists>r. m (combo_key (?cs ! i)) = Some r
             \<and> evaluator_outputs (combination_aggregated_metrics ?e' ! i) =
                 Some (?old (?cs ! i) @ [\<lparr>name = ''openai_elo_evaluator'', result = r\<rparr>]))"
    if i: "i < length ?cs" for i
  proof -
    from i have "combo_key (?cs ! i) \<in> dom m"
      unfolding final_ratings_dom [OF fr] by simp
    then obtain r where r: "m (combo_key (?cs ! i)) = Some r" by blast
    with i show ?thesis
      by (simp add: append_rating_outputs append_rating_key)
  qed
  have again: "\<exists>e''. out2 = [e'']
        \<and> length (combination_aggregated_metrics e'') = length ?cs
        \<and> (\<forall>i < length ?cs.
              \<exists>r r2. evaluator_outputs (combination_aggregated_metrics e'' ! i) =
                 Some (?old (?cs ! i) @ [\<lparr>name = ''openai_elo_evaluator'', result = r\<rparr>,
                                         \<lparr>name = ''openai_elo_evaluator'', result = r2\<rparr>]))"
    if run2: "evaluate_based_on_all_results config2 pc2 [?e'] = Inr out2" for config2 pc2 out2
  proof -
    from evaluate_single_Inr_full [OF run2] obtain m2 where
      out2: "out2 = [?e'\<lparr>combination_aggregated_metrics :=
                 map (\<lambda>c. append_rating c (the (m2 (combo_key c))))
                     (combination_aggregated_metrics ?e')\<rparr>]"
      by blast
    let ?e'' = "?e'\<lparr>combination_aggregated_metrics :=
                 map (\<lambda>c. append_rating c (the (m2 (combo_key c))))
                     (combination_aggregated_metrics ?e')\<rparr>"
    have "\<exists>r r2. evaluator_outputs (combination_aggregated_metrics ?e'' ! i) =
                 Some (?old (?cs ! i) @ [\<lparr>name = ''openai_elo_evaluator'', result = r\<rparr>,
                                         \<lparr>name = ''openai_elo_evaluator'', result = r2\<rparr>])"
      if "i < length ?cs" for i
      using that by (simp add: append_rating_outputs)
    moreover have "length (combination_aggregated_metrics ?e'') = length ?cs" by simp
    ultimately show ?thesis using out2 by blast
  qed
  have "length (combination_aggregated_metrics ?e') = length ?cs"
    and "group_experiment_results ?e' = group_experiment_results e"
    by simp_all
  with run each again show ?thesis by blast
qed

theorem C7_aggregator_appends_rating_witness:
  "\<exists>e'. evaluate_based_on_all_results (main_config ''gpt-4'') (\<lambda>batches model. Inr [])
           [single_treatment] = Inr [e']
     \<and> evaluator_outputs (combination_aggregated_metrics e' ! 0)
         = Some [\<lparr>name = ''openai_elo_evaluator'', result = 1200\<rparr>]"
proof -
  let ?m = "prompt_ratings_init (combination_aggregated_metrics single_treatment)"
  have p: "(\<lambda>batches model. Inr [])
             (message_batches (main_config ''gpt-4'') single_treatment)
             (openai_model_name (main_config ''gpt-4'')) = (Inr [] :: error + response list)"
    by simp
  have fr: "final_ratings single_treatment [] = Inr ?m"
    by (simp add: final_ratings_def single_treatment_def)
  have m: "?m ''{'name': 'A'}'' = Some 1200"
    by (simp add: prompt_ratings_init_def single_treatment_def)
  from C7_aggregator_appends_rating
    [where pc = "\<lambda>batches model. Inr []" and config = "main_config ''gpt-4''", OF p fr]
  obtain e' where
    run: "evaluate_based_on_all_results (main_config ''gpt-4'') (\<lambda>batches model. Inr [])
           [single_treatment] = Inr [e']"
    and each: "\<forall>i < length (combination_aggregated_metrics single_treatment).
                 (\<exists>r. ?m (combo_key (combination_aggregated_metrics single_treatment ! i)) = Some r
                       \<and> evaluator_outputs (combination_aggregated_metrics e' ! i) =
                           Some ((case evaluator_outputs
                                         (combination_aggregated_metrics single_treatment ! i) of
                                    None \<Rightarrow> [] | Some outs \<Rightarrow> outs)
                                 @ [\<lparr>name = ''openai_elo_evaluator'', result = r\<rparr>]))"
    by blast
  have "0 < length (combination_aggregated_metrics single_treatment)"
    by (simp add: single_treatment_def)
  with each obtain r where
    "?m (combo_key (combination_aggregated_metrics single_treatment ! 0)) = Some r"
    "evaluator_outputs (combination_aggregated_metrics e' ! 0) =
       Some ((case evaluator_outputs (combination_aggregated_metrics single_treatment ! 0) of
                None \<Rightarrow> [] | Some outs \<Rightarrow> outs)
             @ [\<lparr>name = ''openai_elo_evaluator'', result = r\<rparr>])"
    by blast
  with m have "evaluator_outputs (combination_aggregated_metrics e' ! 0)
         = Some [\<lparr>name = ''openai_elo_evaluator'', result = 1200\<rparr>]"
    by (simp add: single_treatment_def)
  with run show ?thesis by blast
qed

text \<open>
  Claim C8: two runs on the same experiment whose responses carry the same verdict
  tokens, position by position, end with the same rating table and the same result.
\<close>

theorem C8_ratings_determined_by_tokens:
  assumes "pc1 (message_batches config e) (openai_model_name config) = Inr rs1"
    and "pc2 (message_batches config e) (openai_model_name config) = Inr rs2"
    and "\<forall>i. response_content rs1 i = response_content rs2 i"
  shows "final_ratings e rs1 = final_ratings e rs2
         \<and> evaluate_based_on_all_results config pc1 [e]
           = evaluate_based_on_all_results config pc2 [e]"
proof -
  have "final_ratings e rs1 = final_ratings e rs2"
    by (simp add: final_ratings_def replay_groups_cong [OF assms(3)])
  then show ?thesis
    using assms(1,2) by (simp add: evaluate_based_on_all_results_def)
qed

theorem C8_ratings_determined_by_tokens_witness:
  "final_ratings two_treatments [response_with ''A'', response_with ''B'']
     = final_ratings two_treatments
         [\<lparr>choices = [\<lparr>message = \<lparr>role = ''judge'', content = ''A''\<rparr>\<rparr>]\<rparr>,
          \<lparr>choices = [\<lparr>message = \<lparr>role = ''judge'', content = ''B''\<rparr>\<rparr>,
                      \<lparr>message = \<lparr>role = ''judge'', content = ''A''\<rparr>\<rparr>]\<rparr>]
   \<and> evaluate_based_on_all_results (main_config ''gpt-4'')
        (\<lambda>batches model. Inr [response_with ''A'', response_with ''B'']) [two_treatments]
     = evaluate_based_on_all_results (main_config ''gpt-4'')
        (\<lambda>batches model. Inr
           [\<lparr>choices = [\<lparr>message = \<lparr>role = ''judge'', content = ''A''\<rparr>\<rparr>]\<rparr>,
            \<lparr>choices = [\<lparr>message = \<lparr>role = ''judge'', content = ''B''\<rparr>\<rparr>,
                        \<lparr>message = \<lparr>role = ''judge'', content = ''A''\<rparr>\<rparr>]\<rparr>])
        [two_treatments]"
proof -
  let ?rs1 = "[response_with ''A'', response_with ''B'']"
  let ?rs2 = "[\<lparr>choices = [\<lparr>message = \<lparr>role = ''judge'', content = ''A''\<rparr>\<rparr>]\<rparr>,
          \<lparr>choices = [\<lparr>message = \<lparr>role = ''judge'', content = ''B''\<rparr>\<rparr>,
                      \<lparr>message = \<lparr>role = ''judge'', content = ''A''\<rparr>\<rparr>]\<rparr>]"
  have same: "\<forall>i. response_content ?rs1 i = response_content ?rs2 i"
  proof
    fix i :: nat
    have "i = 0 \<or> i = 1 \<or> 2 \<le> i" by arith
    then show "response_content ?rs1 i = response_content ?rs2 i"
      by (elim disjE) (simp_all add: response_content_def response_with_def)
  qed
  have p1: "(\<lambda>batches model. Inr ?rs1)
              (message_batches (main_config ''gpt-4'') two_treatments)
              (openai_model_name (main_config ''gpt-4'')) = (Inr ?rs1 :: error + response list)"
    by simp
  have p2: "(\<lambda>batches model. Inr ?rs2)
              (message_batches (main_config ''gpt-4'') two_treatments)
              (openai_model_name (main_config ''gpt-4'')) = (Inr ?rs2 :: error + response list)"
    by simp
  from C8_ratings_determined_by_tokens [OF p1 p2 same] show ?thesis .
qed

text \<open>
  Claim C9: a list that does not hold exactly one experiment is returned unchanged.
\<close>

theorem C9_not_one_experiment_unchanged:
  "length exps \<noteq> 1 \<Longrightarrow> evaluate_based_on_all_results config parallel_completions exps = Inr exps"
  by (simp add: evaluate_based_on_all_results_def)

theorem C9_not_one_experiment_unchanged_witness:
  "length ([] :: experiment list) \<noteq> 1
   \<and> evaluate_based_on_all_results (main_config ''gpt-4'') (\<lambda>batches model. Inr []) [] = Inr []
   \<and> length [two_treatments, single_treatment] \<noteq> 1
   \<and> evaluate_based_on_all_results (main_config ''gpt-4'') (\<lambda>batches model. Inr [])
        [two_treatments, single_treatment]
       = Inr [two_treatments, single_treatment]"
  using C9_not_one_experiment_unchanged
      [of "[]" "main_config ''gpt-4''" "\<lambda>batches model. Inr []"]
    C9_not_one_experiment_unchanged
      [of "[two_treatments, single_treatment]" "main_config ''gpt-4''" "\<lambda>batches model. Inr []"]
  by simp

subsection \<open>The task text of a group\<close>

lemma lazy_body_sound:
  "lazy_body cs = Some b \<Longrightarrow> \<exists>rest. cs = b @ CHR ''}'' # rest \<and> nl \<notin> set b \<and> tail_ok rest"
proof (induction cs arbitrary: b)
  case Nil
  then show ?case by simp
next
  case (Cons c cs)
  show ?case
  proof (cases "c = CHR ''}'' \<and> tail_ok cs")
    case True
    with Cons.prems show ?thesis by auto
  next
    case False
    with Cons.prems obtain b0 where c: "c \<noteq> nl" and b0: "lazy_body cs = Some b0" and b: "b = c # b0"
      by (auto split: if_splits)
    from Cons.IH [OF b0] obtain rest where
      "cs = b0 @ CHR ''}'' # rest" "nl \<notin> set b0" "tail_ok rest" by blast
    with c b show ?thesis by auto
  qed
qed

lemma lazy_body_shortest:
  "lazy_body cs = Some b \<Longrightarrow> cs = b' @ CHR ''}'' # rest' \<Longrightarrow> tail_ok rest' \<Longrightarrow>
     length b \<le> length b'"
proof (induction cs arbitrary: b b')
  case Nil
  then show ?case by simp
next
  case (Cons c cs)
  show ?case
  proof (cases "c = CHR ''}'' \<and> tail_ok cs")
    case True
    with Cons.prems show ?thesis by auto
  next
    case False
    with Cons.prems(1) obtain b0 where b0: "lazy_body cs = Some b0" and b: "b = c # b0"
      by (auto split: if_splits)
    from False Cons.prems(2,3) obtain b0' where b': "b' = c # b0'" and cs: "cs = b0' @ CHR ''}'' # rest'"
      by (cases b') auto
    from Cons.IH [OF b0 cs Cons.prems(3)] b b' show ?thesis by simp
  qed
qed

lemma lazy_body_complete:
  "cs = b' @ CHR ''}'' # rest' \<Longrightarrow> tail_ok rest' \<Longrightarrow> nl \<notin> set b' \<Longrightarrow>
     \<exists>b. lazy_body cs = Some b"
proof (induction b' arbitrary: cs)
  case Nil
  then show ?case by simp
next
  case (Cons x b')
  from Cons.prems obtain cs' where cs: "cs = x # cs'" and cs': "cs' = b' @ CHR ''}'' # rest'"
    and x: "x \<noteq> nl" and b': "nl \<notin> set b'"
    by auto
  from Cons.IH [OF cs' Cons.prems(2) b'] obtain b where "lazy_body cs' = Some b" by blast
  with cs x show ?case by simp
qed

lemma not_space_brace: "\<not> is_space (CHR ''{'')"
  by (simp add: is_space_def)

lemma match_here_Some:
  "match_here s = Some g \<longleftrightarrow>
     take 8 s = ''content:'' \<and>
     (\<exists>cs b. dropWhile is_space (drop 8 s) = CHR ''{'' # cs \<and> lazy_body cs = Some b
        \<and> g = CHR ''{'' # b @ ''}'')"
  by (cases "dropWhile is_space (drop 8 s)")
     (auto simp: match_here_def simp del: dropWhile_eq_Nil_conv)

lemma anchored_split:
  assumes "s = ''content:'' @ ws @ CHR ''{'' # cs" and "list_all is_space ws"
  shows "take 8 s = ''content:''" and "dropWhile is_space (drop 8 s) = CHR ''{'' # cs"
proof -
  show "take 8 s = ''content:''" using assms(1) by simp
  have "drop 8 s = ws @ CHR ''{'' # cs" using assms(1) by simp
  moreover have "dropWhile is_space (ws @ CHR ''{'' # cs) = CHR ''{'' # cs"
    using assms(2) not_space_brace by (simp add: dropWhile_append3 list_all_iff)
  ultimately show "dropWhile is_space (drop 8 s) = CHR ''{'' # cs" by simp
qed

lemma anchored_join:
  assumes "take 8 s = ''content:''" and "dropWhile is_space (drop 8 s) = CHR ''{'' # cs"
  shows "\<exists>ws. s = ''content:'' @ ws @ CHR ''{'' # cs \<and> list_all is_space ws"
proof -
  let ?ws = "takeWhile is_space (drop 8 s)"
  have "s = take 8 s @ drop 8 s" by simp
  also have "drop 8 s = ?ws @ dropWhile is_space (drop 8 s)" by simp
  finally have "s = ''content:'' @ ?ws @ CHR ''{'' # cs"
    using assms by simp
  moreover have "list_all is_space ?ws"
    by (auto simp: list_all_iff dest: set_takeWhileD)
  ultimately show ?thesis by blast
qed

lemma matches_at_0:
  "matches_at s 0 body \<longleftrightarrow>
     take 8 s = ''content:'' \<and>
     (\<exists>cs rest. dropWhile is_space (drop 8 s) = CHR ''{'' # cs
        \<and> cs = body @ CHR ''}'' # rest \<and> nl \<notin> set body \<and> tail_ok rest)"
  (is "?L \<longleftrightarrow> ?R")
proof
  assume ?L
  then obtain ws rest where
    s: "s = ''content:'' @ ws @ CHR ''{'' # (body @ CHR ''}'' # rest)"
    and ws: "list_all is_space ws" and b: "nl \<notin> set body" and t: "tail_ok rest"
    by (auto simp: matches_at_def)
  from anchored_split [OF s ws] b t show ?R by blast
next
  assume r: ?R
  then obtain cs rest where
    d: "dropWhile is_space (drop 8 s) = CHR ''{'' # cs"
    and cs: "cs = body @ CHR ''}'' # rest" and b: "nl \<notin> set body" and t: "tail_ok rest"
    by blast
  from r have tk: "take 8 s = ''content:''" by blast
  from anchored_join [OF tk d] obtain ws where
    "s = ''content:'' @ ws @ CHR ''{'' # cs" "list_all is_space ws" by blast
  with cs b t show ?L
    by (auto simp: matches_at_def)
qed

lemma match_here_sound:
  assumes "match_here s = Some g"
  shows "\<exists>body. g = ''{'' @ body @ ''}'' \<and> matches_at s 0 body
           \<and> (\<forall>body'. matches_at s 0 body' \<longrightarrow> length body \<le> length body')"
proof -
  from assms obtain cs b where tk: "take 8 s = ''content:''"
    and d: "dropWhile is_space (drop 8 s) = CHR ''{'' # cs"
    and lb: "lazy_body cs = Some b" and g: "g = CHR ''{'' # b @ ''}''"
    by (auto simp: match_here_Some)
  from lazy_body_sound [OF lb] tk d have "matches_at s 0 b"
    by (auto simp: matches_at_0)
  moreover have "length b \<le> length body'" if "matches_at s 0 body'" for body'
  proof -
    from that d obtain rest where "cs = body' @ CHR ''}'' # rest" "tail_ok rest"
      by (auto simp: matches_at_0)
    then show ?thesis by (rule lazy_body_shortest [OF lb])
  qed
  ultimately show ?thesis using g by auto
qed

lemma match_here_complete:
  assumes "matches_at s 0 body"
  shows "\<exists>g. match_here s = Some g"
proof -
  from assms obtain cs rest where tk: "take 8 s = ''content:''"
    and d: "dropWhile is_space (drop 8 s) = CHR ''{'' # cs"
    and cs: "cs = body @ CHR ''}'' # rest" and b: "nl \<notin> set body" and t: "tail_ok rest"
    by (auto simp: matches_at_0)
  from lazy_body_complete [OF cs t b] obtain b' where "lazy_body cs = Some b'" by blast
  with tk d show ?thesis by (simp add: match_here_Some)
qed

lemma matches_at_Nil: "\<not> matches_at [] i body"
  by (simp add: matches_at_def)

lemma matches_at_Suc: "matches_at (c # cs) (Suc i) body \<longleftrightarrow> matches_at cs i body"
  by (simp add: matches_at_def)

lemma re_search_complete:
  "matches_at s i body \<Longrightarrow> \<exists>g. re_search s = Some g"
proof (induction s arbitrary: i)
  case Nil
  then show ?case by (simp add: matches_at_Nil)
next
  case (Cons c cs)
  show ?case
  proof (cases "match_here (c # cs)")
    case (Some g)
    then show ?thesis by simp
  next
    case None
    with match_here_complete [of "c # cs" body] Cons.prems obtain j where "i = Suc j"
      by (cases i) auto
    with Cons.prems have "matches_at cs j body" by (simp add: matches_at_Suc)
    from Cons.IH [OF this] None show ?thesis by simp
  qed
qed

lemma re_search_sound:
  "re_search s = Some g \<Longrightarrow>
     \<exists>i body. g = ''{'' @ body @ ''}'' \<and> matches_at s i body
        \<and> (\<forall>i' body'. matches_at s i' body' \<longrightarrow>
              i < i' \<or> (i = i' \<and> length body \<le> length body'))"
proof (induction s)
  case Nil
  then show ?case by (simp add: match_here_def)
next
  case (Cons c cs)
  show ?case
  proof (cases "match_here (c # cs)")
    case (Some g')
    with Cons.prems have g: "g' = g" by simp
    from match_here_sound [OF Some] g obtain body where
      b: "g = ''{'' @ body @ ''}''" "matches_at (c # cs) 0 body"
      and least: "\<forall>body'. matches_at (c # cs) 0 body' \<longrightarrow> length body \<le> length body'"
      by blast
    have "0 < i' \<or> (0 = i' \<and> length body \<le> length body')"
      if "matches_at (c # cs) i' body'" for i' body'
      using that least by (cases i') auto
    with b show ?thesis by blast
  next
    case None
    with Cons.prems have "re_search cs = Some g" by simp
    from Cons.IH [OF this] obtain i body where
      b: "g = ''{'' @ body @ ''}''" "matches_at cs i body"
      and least: "\<forall>i' body'. matches_at cs i' body' \<longrightarrow>
              i < i' \<or> (i = i' \<and> length body \<le> length body')"
      by blast
    have "Suc i < i' \<or> (Suc i = i' \<and> length body \<le> length body')"
      if m: "matches_at (c # cs) i' body'" for i' body'
    proof (cases i')
      case 0
      with m match_here_complete [of "c # cs" body'] None show ?thesis by auto
    next
      case (Suc j)
      with m have "matches_at cs j body'" by (simp add: matches_at_Suc)
      with least Suc show ?thesis by auto
    qed
    moreover from b have "matches_at (c # cs) (Suc i) body" by (simp add: matches_at_Suc)
    ultimately show ?thesis using b(1) by blast
  qed
qed

lemma group_messages_shape:
  assumes "msg \<in> set (group_messages config g)"
  shows "\<exists>result1 result2.
           msg = [\<lparr>role = ''system'', content = RANKING_SYSTEM_PROMPT\<rparr>,
                  \<lparr>role = ''user'',
                   content = user_content config (test_case_of (group_key g)) result1 result2\<rparr>]"
  using assms by (auto simp: group_messages_def judge_message_def)

text \<open>
  Claim C10: the user message of every judge message of a group carries, after
  \<open>Prompt:\<close>, the task text of the group and not its key. When the key has a match of
  the pattern, the task text is the braces group \<open>{body}\<close> of the leftmost match,
  with the shortest body at that offset; when it has none, the task text is empty.
\<close>

theorem C10_prompt_text_is_regex_group:
  "(\<forall>msg \<in> set (group_messages config g).
      \<exists>(result1 :: experiment_result) (result2 :: experiment_result).
        msg = [\<lparr>role = ''system'', content = RANKING_SYSTEM_PROMPT\<rparr>,
               \<lparr>role = ''user'',
                content =
                  ''Task: '' @ strip (input_description config) @ [nl]
                  @ replicate 24 (CHR '' '') @ ''Prompt: '' @ test_case_of (group_key g) @ [nl]
                  @ replicate 24 (CHR '' '') @ ''Generation A: '' @ raw_output result1 @ [nl]
                  @ replicate 24 (CHR '' '') @ ''Generation B: '' @ raw_output result2\<rparr>])
   \<and> ((\<exists>i body. matches_at (group_key g) i body) \<longrightarrow>
        (\<exists>i body. matches_at (group_key g) i body
           \<and> (\<forall>i' body'. matches_at (group_key g) i' body' \<longrightarrow>
                 i < i' \<or> (i = i' \<and> length body \<le> length body'))
           \<and> test_case_of (group_key g) = ''{'' @ body @ ''}''))
   \<and> ((\<forall>i body. \<not> matches_at (group_key g) i body) \<longrightarrow> test_case_of (group_key g) = [])"
proof (intro conjI impI ballI)
  fix msg assume "msg \<in> set (group_messages config g)"
  from group_messages_shape [OF this]
  show "\<exists>(result1 :: experiment_result) (result2 :: experiment_result).
        msg = [\<lparr>role = ''system'', content = RANKING_SYSTEM_PROMPT\<rparr>,
               \<lparr>role = ''user'',
                content =
                  ''Task: '' @ strip (input_description config) @ [nl]
                  @ replicate 24 (CHR '' '') @ ''Prompt: '' @ test_case_of (group_key g) @ [nl]
                  @ replicate 24 (CHR '' '') @ ''Generation A: '' @ raw_output result1 @ [nl]
                  @ replicate 24 (CHR '' '') @ ''Generation B: '' @ raw_output result2\<rparr>]"
    unfolding user_content_def .
next
  assume "\<exists>i body. matches_at (group_key g) i body"
  then obtain i body where "matches_at (group_key g) i body" by blast
  from re_search_complete [OF this] obtain t where t: "re_search (group_key g) = Some t" by blast
  then have "test_case_of (group_key g) = t" by (simp add: test_case_of_def)
  with re_search_sound [OF t]
  show "\<exists>i body. matches_at (group_key g) i body
           \<and> (\<forall>i' body'. matches_at (group_key g) i' body' \<longrightarrow>
                 i < i' \<or> (i = i' \<and> length body \<le> length body'))
           \<and> test_case_of (group_key g) = ''{'' @ body @ ''}''"
    by auto
next
  assume none: "\<forall>i body. \<not> matches_at (group_key g) i body"
  have "re_search (group_key g) = None"
  proof (cases "re_search (group_key g)")
    case None
    then show ?thesis .
  next
    case (Some t)
    from re_search_sound [OF Some] none show ?thesis by blast
  qed
  then show "test_case_of (group_key g) = []" by (simp add: test_case_of_def)
qed

theorem C10_prompt_text_is_regex_group_witness:
  "(\<exists>i body. matches_at (group_key labelled_group) i body
       \<and> test_case_of (group_key labelled_group) = ''{'' @ body @ ''}'')
   \<and> test_case_of (group_key labelled_group) = ''{'text': 'Hello world!'}''
   \<and> test_case_of (group_key (hd (group_experiment_results two_treatments))) = []
   \<and> (\<exists>(result1 :: experiment_result) (result2 :: experiment_result).
         judge_message (main_config ''gpt-4'') ''{'text': 'Hello world!'}''
           \<lparr>combination = ''{'name': 'B'}'', raw_output = ''Salut monde!''\<rparr>
           \<lparr>combination = ''{'name': 'A'}'', raw_output = ''Bonjour le monde!''\<rparr>
         = [\<lparr>role = ''system'', content = RANKING_SYSTEM_PROMPT\<rparr>,
            \<lparr>role = ''user'',
             content =
               ''Task: '' @ strip (input_description (main_config ''gpt-4'')) @ [nl]
               @ replicate 24 (CHR '' '') @ ''Prompt: '' @ test_case_of (group_key labelled_group) @ [nl]
               @ replicate 24 (CHR '' '') @ ''Generation A: '' @ raw_output result1 @ [nl]
               @ replicate 24 (CHR '' '') @ ''Generation B: '' @ raw_output result2\<rparr>])"
proof -
  let ?g2 = "hd (group_experiment_results two_treatments)"
  let ?cfg = "main_config ''gpt-4''"
  let ?ra = "\<lparr>combination = ''{'name': 'A'}'', raw_output = ''Bonjour le monde!''\<rparr>"
  let ?rb = "\<lparr>combination = ''{'name': 'B'}'', raw_output = ''Salut monde!''\<rparr>"
  let ?msg = "judge_message ?cfg ''{'text': 'Hello world!'}'' ?rb ?ra"
  have t: "test_case_of (group_key labelled_group) = ''{'text': 'Hello world!'}''"
    by (simp add: test_case_of_def labelled_group_def match_here_def is_space_def tail_ok_def nl_def)
  have "drop 0 (group_key labelled_group) =
          ''content:'' @ '' '' @ ''{'' @ (CHR 0x27 # ''text': 'Hello world!'' @ [CHR 0x27])
          @ ''}'' @ '', expected_result: None''"
    by (simp add: labelled_group_def)
  then have "matches_at (group_key labelled_group) 0 (CHR 0x27 # ''text': 'Hello world!'' @ [CHR 0x27])"
    unfolding matches_at_def
    by (intro conjI exI [of _ "'' ''"] exI [of _ "'', expected_result: None''"])
       (simp_all add: is_space_def tail_ok_def nl_def)
  then have ex: "\<exists>i body. matches_at (group_key labelled_group) i body"
    by (intro exI)
  have "re_search (group_key ?g2) = None"
    by (simp add: two_treatments_def match_here_def)
  with re_search_complete [of "group_key ?g2"]
  have none: "\<forall>i body. \<not> matches_at (group_key ?g2) i body"
    by fastforce
  have rs: "experiment_results labelled_group = [?ra, ?rb]"
    by (simp add: labelled_group_def)
  have mem: "?msg \<in> set (group_messages ?cfg labelled_group)"
    unfolding group_messages_def t rs by simp
  note c10 = C10_prompt_text_is_regex_group [of ?cfg labelled_group]
  from c10 [THEN conjunct2, THEN conjunct1, THEN mp, OF ex]
  obtain i body where "matches_at (group_key labelled_group) i body"
    and "test_case_of (group_key labelled_group) = ''{'' @ body @ ''}''"
    by (elim exE conjE)
  then have a: "\<exists>i body. matches_at (group_key labelled_group) i body
       \<and> test_case_of (group_key labelled_group) = ''{'' @ body @ ''}''"
    by (intro exI conjI)
  note b = c10 [THEN conjunct1, THEN bspec, OF mem]
  note c = C10_prompt_text_is_regex_group [of ?cfg ?g2, THEN conjunct2, THEN conjunct2, THEN mp, OF none]
  show ?thesis
    by (intro conjI) (rule a t c b)+
qed

end
